theory Spec2Isabelle
  imports Complex_Main "HOL-Library.Char_ord" "HOL-Library.List_Lexorder" "HOL-Library.Multiset"
begin

section \<open>Python values and library calls used by colmap\_utils.py\<close>

text \<open>
  The exceptions that the modelled functions can raise. An exception is a value: every
  function that can raise returns the exception next to the effects it had until then.
\<close>

datatype error =
    ZeroDivisionError
  | ValueError
  | IndexError
  | FileNotFoundError
  | IsADirectoryError
  | LinAlgError

subsection \<open>Formatting integers\<close>

text \<open>
  \<open>str_nat\<close> is Python's \<^verbatim>\<open>str\<close> on a non-negative int (decimal, no leading zero),
  \<open>str_int\<close> the same on any int, and \<open>format_05\<close> the format specification
  \<^verbatim>\<open>{count:05}\<close>: sign first, then zeros up to a total width of 5.
\<close>

definition digit_char :: "nat \<Rightarrow> char" where
  "digit_char d = char_of (48 + d)"

fun str_nat :: "nat \<Rightarrow> string" where
  "str_nat n = (if n < 10 then [digit_char n] else str_nat (n div 10) @ [digit_char (n mod 10)])"

declare str_nat.simps [simp del]

definition str_int :: "int \<Rightarrow> string" where
  "str_int i = (if i < 0 then CHR ''-'' # str_nat (nat (- i)) else str_nat (nat i))"

definition zfill :: "nat \<Rightarrow> string \<Rightarrow> string" where
  "zfill w s = replicate (w - length s) CHR ''0'' @ s"

definition format_05 :: "int \<Rightarrow> string" where
  "format_05 c = (if c < 0 then CHR ''-'' # zfill 4 (str_nat (nat (- c))) else zfill 5 (str_nat (nat c)))"

text \<open>The number a string of decimal digits denotes (leading zeros allowed).\<close>

definition digit_val :: "char \<Rightarrow> nat" where
  "digit_val c = of_char c - 48"

definition decimal_val :: "string \<Rightarrow> nat" where
  "decimal_val s = foldl (\<lambda>acc c. 10 * acc + digit_val c) 0 s"

subsection \<open>Paths\<close>

text \<open>\<^verbatim>\<open>os.path.join(a, b)\<close> on POSIX, for two components.\<close>

definition path_join :: "string \<Rightarrow> string \<Rightarrow> string" where
  "path_join a b =
     (if b \<noteq> [] \<and> hd b = CHR ''/'' then b
      else if a = [] \<or> last a = CHR ''/'' then a @ b
      else a @ ''/'' @ b)"

section \<open>Frame extractor: extract\_frames\<close>

text \<open>
  What \<^verbatim>\<open>cv2.VideoCapture\<close> gives for a video that opens: the three properties the function
  prints (the frame rate as the text Python prints for it) and the frames that
  \<^verbatim>\<open>vidcap.read()\<close> returns one after the other before it reports the end of the stream.
\<close>

record 'img video =
  fps :: string
  frame_width :: int
  frame_height :: int
  frames :: "'img list"

text \<open>
  What the function sees of its environment: which paths exist, and what opening a
  video path gives (\<open>None\<close> when \<^verbatim>\<open>vidcap.isOpened()\<close> is false).
\<close>

record 'img world =
  path_exists :: "string \<Rightarrow> bool"
  videos :: "string \<Rightarrow> 'img video option"

text \<open>
  What the function does to its environment, in order: the lines it prints, the directories
  \<^verbatim>\<open>os.makedirs\<close> creates and the image files \<^verbatim>\<open>cv2.imwrite\<close> writes (path and content;
  a later write to the same path replaces the earlier one). Creating the directory and
  writing an image are taken to succeed.
\<close>

record 'img effects =
  printed :: "string list"
  made_dirs :: "string list"
  written :: "(string \<times> 'img) list"

definition say :: "string \<Rightarrow> 'img effects \<Rightarrow> 'img effects" where
  "say line s = s\<lparr>printed := printed s @ [line]\<rparr>"

definition frame_name :: "int \<Rightarrow> string" where
  "frame_name cnt = ''IMG_'' @ format_05 cnt @ ''.png''"

text \<open>
  The \<^verbatim>\<open>while success\<close> loop, lines 105 to 109: one step per frame read, \<open>cnt\<close> being
  the counter \<^verbatim>\<open>count\<close>. The test
  \<^verbatim>\<open>count % interval == 0\<close> raises ZeroDivisionError when \<open>interval\<close> is 0; for any other
  \<open>interval\<close> Python's \<^verbatim>\<open>%\<close> is the floored remainder, which is \<open>mod\<close> on \<open>int\<close>.
\<close>

fun write_loop :: "string \<Rightarrow> int \<Rightarrow> int \<Rightarrow> 'img list \<Rightarrow> 'img effects \<Rightarrow> error option \<times> 'img effects" where
  "write_loop output_folder interval cnt [] s = (None, s)"
| "write_loop output_folder interval cnt (img # rest) s =
     (if interval = 0 then (Some ZeroDivisionError, s)
      else write_loop output_folder interval (cnt + 1) rest
             (if cnt mod interval = 0
              then s\<lparr>written := written s @ [(path_join output_folder (frame_name cnt), img)]\<rparr>
              else s))"

text \<open>
  The whole function. The result is the exception raised, if any, and the effects.
\<close>

definition extract_frames ::
    "'img world \<Rightarrow> string \<Rightarrow> string \<Rightarrow> int \<Rightarrow> bool \<Rightarrow> error option \<times> 'img effects" where
  "extract_frames w video_path output_folder interval verbose =
     (let s0 = \<lparr>printed = [], made_dirs = [], written = []\<rparr>;
          s1 = (if \<not> path_exists w output_folder
                then (if verbose then say (''Creating output folder '' @ output_folder) s0 else s0)
                       \<lparr>made_dirs := [output_folder]\<rparr>
                else (if verbose then say (''Output folder '' @ output_folder @ '' exists'') s0 else s0))
      in case videos w video_path of
           None \<Rightarrow> (None, say ''Error: Could not open video.'' s1)
         | Some vidcap \<Rightarrow>
             (let s2 = (if verbose
                        then say (''Video resolution: '' @ str_int (frame_width vidcap) @ ''x''
                                  @ str_int (frame_height vidcap) @ '', FPS: '' @ fps vidcap) s1
                        else s1);
                  s3 = (if verbose then say ''Extracting frames...'' s2 else s2)
              in case write_loop output_folder interval 0 (frames vidcap) s3 of
                   (Some e, s4) \<Rightarrow> (Some e, s4)
                 | (None, s4) \<Rightarrow> (None, if verbose then say ''Done extracting frames'' s4 else s4)))"

section \<open>Rotation converters: matrix\_to\_quaternion, quaternion\_to\_matrix\<close>

type_synonym 'a matrix = "'a list list"
type_synonym 'a quat = "'a \<times> 'a \<times> 'a \<times> 'a"
type_synonym 'a vec3 = "'a \<times> 'a \<times> 'a"

text \<open>
  The numeric library calls of the module (numpy and scipy, which are not part of the
  repository) are parameters of the model, over a type \<open>'a\<close> of numbers:
  \<^verbatim>\<open>np.linalg.inv\<close>, \<^verbatim>\<open>Rotation.from_matrix(m).as_quat()\<close> (components in the order
  x, y, z, w), \<^verbatim>\<open>Rotation.from_quat(q).as_matrix()\<close>, and the text an f-string gives for a
  number. Each call returns its value or the exception it raises.
\<close>

record 'a numeric =
  linalg_inv :: "'a matrix \<Rightarrow> error + 'a matrix"
  from_matrix_as_quat :: "'a matrix \<Rightarrow> error + 'a quat"
  from_quat_as_matrix :: "'a quat \<Rightarrow> error + 'a matrix"
  float_str :: "'a \<Rightarrow> string"

definition matrix_to_quaternion :: "'a numeric \<Rightarrow> 'a matrix \<Rightarrow> error + 'a quat" where
  "matrix_to_quaternion np rotation_matrix = from_matrix_as_quat np rotation_matrix"

definition quaternion_to_matrix :: "'a numeric \<Rightarrow> 'a quat \<Rightarrow> error + 'a matrix" where
  "quaternion_to_matrix np quaternion = from_quat_as_matrix np quaternion"

section \<open>Pose reader: poses\_from\_file\<close>

text \<open>
  An image record of the images list, as far as the function reads it: the quaternion
  (four numbers) and the translation (three numbers). A pose is a matrix of three rows of
  four numbers.
\<close>

record 'a Image =
  qvec :: "'a quat"
  tvec :: "'a vec3"

type_synonym 'a mat33 = "'a vec3 vec3"
type_synonym 'a pose = "('a \<times> 'a \<times> 'a \<times> 'a) vec3"

text \<open>
  Modelled from the spec: \<^verbatim>\<open>read_images_text\<close> of the repository's
  third\_party/colmap\_runner is missing. By sections 4.3 and 7 of the spec it parses the
  image records of an images-list file and raises when the file is missing or malformed. It
  returns a dictionary from image identifier to image record, here an association list with
  one entry per identifier, in the order of insertion. The parser of the text is a
  parameter; \<open>files\<close> gives the text of each path that exists.
\<close>

definition read_images_text ::
    "(string \<Rightarrow> error + (int \<times> 'a Image) list) \<Rightarrow> (string \<Rightarrow> string option) \<Rightarrow> string
      \<Rightarrow> error + (int \<times> 'a Image) list" where
  "read_images_text parse files path =
     (case files path of None \<Rightarrow> Inl FileNotFoundError | Some text \<Rightarrow> parse text)"

text \<open>\<^verbatim>\<open>np.stack\<close> of a list of arrays of one shape: it raises on the empty list.\<close>

definition np_stack :: "'b list \<Rightarrow> error + 'b list" where
  "np_stack arrays = (if arrays = [] then Inl ValueError else Inr arrays)"

text \<open>
  \<^verbatim>\<open>torch.cat([Rs, tvecs[..., None]], dim=-1)\<close> for one image: each row of the rotation
  gets the matching entry of the translation as its fourth entry.
\<close>

definition cat_last :: "'a mat33 \<Rightarrow> 'a vec3 \<Rightarrow> 'a pose" where
  "cat_last R t =
     (case (R, t) of
        (((r00, r01, r02), (r10, r11, r12), (r20, r21, r22)), (t0, t1, t2)) \<Rightarrow>
          ((r00, r01, r02, t0), (r10, r11, r12, t1), (r20, r21, r22, t2)))"

text \<open>
  The function, lines 35 to 41. \<^verbatim>\<open>camera_utils.quaternion.q_to_R\<close> (also of the missing
  third\_party code) is the parameter \<open>q_to_R\<close>, applied to each quaternion of the batch.
  \<^verbatim>\<open>sorted(extrinsics.items())\<close> orders the entries by identifier, the identifiers of a
  dictionary being distinct.
\<close>

definition poses_from_file ::
    "(string \<Rightarrow> error + (int \<times> 'a Image) list) \<Rightarrow> ('a quat \<Rightarrow> 'a mat33) \<Rightarrow>
     (string \<Rightarrow> string option) \<Rightarrow> string \<Rightarrow> error + 'a pose list" where
  "poses_from_file parse q_to_R files extrinsic_file =
     (case read_images_text parse files extrinsic_file of
        Inl e \<Rightarrow> Inl e
      | Inr extrinsics \<Rightarrow>
          (let images = sort_key fst extrinsics in
           case np_stack (map (\<lambda>(_, im). qvec im) images) of
             Inl e \<Rightarrow> Inl e
           | Inr qvecs \<Rightarrow>
               (case np_stack (map (\<lambda>(_, im). tvec im) images) of
                  Inl e \<Rightarrow> Inl e
                | Inr tvecs \<Rightarrow>
                    (let Rs = map q_to_R qvecs in Inr (map2 cat_last Rs tvecs)))))"

section \<open>Known-pose file synthesizer: create\_mobile\_brick\_colmap\_files\<close>

text \<open>
  A directory is the list of its entries as \<^verbatim>\<open>os.listdir\<close> gives them (distinct names, in
  no particular order); an entry is a subdirectory or a file. The content of a pose or
  intrinsic file is what \<^verbatim>\<open>np.loadtxt\<close> makes of it: the two-dimensional array, or \<open>None\<close>
  when the text does not parse. The content of an image is never read.
\<close>

datatype 'c entry = Dir | File 'c

type_synonym 'c directory = "(string \<times> 'c entry) list"

text \<open>
  The scan directory \<^verbatim>\<open>orig_dir\<close>: its subdirectories pose, intrinsic and images, each
  \<open>None\<close> when it does not exist.
\<close>

record 'a scan =
  scan_pose :: "'a matrix option directory option"
  scan_intrinsic :: "'a matrix option directory option"
  scan_images :: "unit directory option"

text \<open>
  The three files of the sparse folder. A file is the list of the lines written to it, each
  \<^verbatim>\<open>write\<close> call of the source writing one line with its end-of-line character (here
  left out); \<open>None\<close> when the call has not opened the file.
\<close>

record sparse =
  images_txt :: "string list option"
  cameras_txt :: "string list option"
  points3D_txt :: "string list option"

definition isfile :: "'c entry \<Rightarrow> bool" where
  "isfile e = (case e of Dir \<Rightarrow> False | File _ \<Rightarrow> True)"

text \<open>
  \<^verbatim>\<open>sorted([f for f in os.listdir(d) if os.path.isfile(os.path.join(d, f))], key=lambda x: x)\<close>:
  the names of the files, in the order of Python's string comparison.
\<close>

definition sorted_files :: "'c directory \<Rightarrow> string list" where
  "sorted_files d = sort_key (\<lambda>x. x) (map fst (filter (\<lambda>(f, e). isfile e) d))"

text \<open>The shell command \<^verbatim>\<open>rm -rf images/.ipynb_checkpoints\<close>.\<close>

definition rm_checkpoints :: "'c directory \<Rightarrow> 'c directory" where
  "rm_checkpoints d = filter (\<lambda>(f, e). f \<noteq> ''.ipynb_checkpoints'') d"

definition loadtxt :: "'a matrix option directory \<Rightarrow> string \<Rightarrow> error + 'a matrix" where
  "loadtxt d name =
     (case map_of d name of
        None \<Rightarrow> Inl FileNotFoundError
      | Some Dir \<Rightarrow> Inl IsADirectoryError
      | Some (File None) \<Rightarrow> Inl ValueError
      | Some (File (Some m)) \<Rightarrow> Inr m)"

text \<open>Indexing \<^verbatim>\<open>m[r, c]\<close>, the slice \<^verbatim>\<open>m[:3, :3]\<close> and the column \<^verbatim>\<open>m[:3, 3]\<close>.\<close>

definition at2 :: "'a matrix \<Rightarrow> nat \<Rightarrow> nat \<Rightarrow> error + 'a" where
  "at2 m r c = (if r < length m \<and> c < length (m ! r) then Inr (m ! r ! c) else Inl IndexError)"

definition block33 :: "'a matrix \<Rightarrow> 'a matrix" where
  "block33 m = map (take 3) (take 3 m)"

definition column3 :: "'a matrix \<Rightarrow> error + 'a list" where
  "column3 m =
     (if \<exists>row \<in> set (take 3 m). length row \<le> 3 then Inl IndexError
      else Inr (map (\<lambda>row. row ! 3) (take 3 m)))"

text \<open>Unpacking into three names: \<^verbatim>\<open>tx, ty, tz = ...\<close>.\<close>

definition unpack3 :: "'a list \<Rightarrow> error + 'a vec3" where
  "unpack3 xs = (case xs of [x, y, z] \<Rightarrow> Inr (x, y, z) | _ \<Rightarrow> Inl ValueError)"

text \<open>
  The body of the first loop, lines 246 to 250, up to the metadata line it writes for the
  pair number \<open>i\<close> (counted from 0).
\<close>

definition image_line ::
    "'a numeric \<Rightarrow> 'a matrix option directory \<Rightarrow> nat \<Rightarrow> string \<Rightarrow> string \<Rightarrow> error + string" where
  "image_line np extrinsics_dir i extrinsic_file image_file =
     (case loadtxt extrinsics_dir extrinsic_file of
        Inl e \<Rightarrow> Inl e
      | Inr loaded \<Rightarrow>
     (case linalg_inv np loaded of
        Inl e \<Rightarrow> Inl e
      | Inr extrinsic \<Rightarrow>
     (case matrix_to_quaternion np (block33 extrinsic) of
        Inl e \<Rightarrow> Inl e
      | Inr (qx, qy, qz, qw) \<Rightarrow>
     (case column3 extrinsic of
        Inl e \<Rightarrow> Inl e
      | Inr col \<Rightarrow>
     (case unpack3 col of
        Inl e \<Rightarrow> Inl e
      | Inr (tx, ty, tz) \<Rightarrow>
          Inr (str_nat (i + 1) @ '' '' @ float_str np qw @ '' '' @ float_str np qx @ '' ''
               @ float_str np qy @ '' '' @ float_str np qz @ '' '' @ float_str np tx @ '' ''
               @ float_str np ty @ '' '' @ float_str np tz @ '' '' @ str_nat (i + 1) @ '' ''
               @ image_file))))))"

fun images_loop ::
    "'a numeric \<Rightarrow> 'a matrix option directory \<Rightarrow> nat \<Rightarrow> (string \<times> string) list \<Rightarrow> string list
      \<Rightarrow> error option \<times> string list" where
  "images_loop np extrinsics_dir i [] f = (None, f)"
| "images_loop np extrinsics_dir i ((extrinsic_file, image_file) # rest) f =
     (case image_line np extrinsics_dir i extrinsic_file image_file of
        Inl e \<Rightarrow> (Some e, f)
      | Inr line \<Rightarrow> images_loop np extrinsics_dir (i + 1) rest (f @ [line, []]))"

text \<open>
  The body of the second loop, lines 258 and 259. The first name of each pair comes from
  \<^verbatim>\<open>extrinsics_files\<close> and is looked up in the intrinsics directory.
\<close>

definition camera_line ::
    "'a numeric \<Rightarrow> 'a matrix option directory \<Rightarrow> nat \<Rightarrow> string \<Rightarrow> error + string" where
  "camera_line np intrinsics_dir i intrinsic_file =
     (case loadtxt intrinsics_dir intrinsic_file of
        Inl e \<Rightarrow> Inl e
      | Inr intrinsic \<Rightarrow>
     (case at2 intrinsic 0 0 of Inl e \<Rightarrow> Inl e | Inr fx \<Rightarrow>
     (case at2 intrinsic 1 1 of Inl e \<Rightarrow> Inl e | Inr fy \<Rightarrow>
     (case at2 intrinsic 0 2 of Inl e \<Rightarrow> Inl e | Inr cx \<Rightarrow>
     (case at2 intrinsic 1 2 of Inl e \<Rightarrow> Inl e | Inr cy \<Rightarrow>
          Inr (str_nat (i + 1) @ '' PINHOLE 1920 1440 '' @ float_str np fx @ '' ''
               @ float_str np fy @ '' '' @ float_str np cx @ '' '' @ float_str np cy))))))"

fun cameras_loop ::
    "'a numeric \<Rightarrow> 'a matrix option directory \<Rightarrow> nat \<Rightarrow> (string \<times> string) list \<Rightarrow> string list
      \<Rightarrow> error option \<times> string list" where
  "cameras_loop np intrinsics_dir i [] f = (None, f)"
| "cameras_loop np intrinsics_dir i ((intrinsic_file, image_file) # rest) f =
     (case camera_line np intrinsics_dir i intrinsic_file of
        Inl e \<Rightarrow> (Some e, f)
      | Inr line \<Rightarrow> cameras_loop np intrinsics_dir (i + 1) rest (f @ [line]))"

definition images_header :: "string list" where
  "images_header =
     [''# Image list with two lines of data per image:'',
      ''#   IMAGE_ID, QW, QX, QY, QZ, TX, TY, TZ, CAMERA_ID, NAME'',
      ''#   POINTS2D[] as (X, Y, POINT3D_ID)'']"

definition cameras_header :: "string list" where
  "cameras_header =
     [''# Camera list with one line of data per camera:'',
      ''#   CAMERA_ID, MODEL, WIDTH, HEIGHT, PARAMS[]'']"

text \<open>
  The whole function: the exception raised, if any, and the files of the sparse folder as
  the call leaves them. A file opened before an exception keeps the lines written until
  then. \<^verbatim>\<open>os.makedirs\<close> of the sparse folder is taken to succeed.
\<close>

definition create_mobile_brick_colmap_files :: "'a numeric \<Rightarrow> 'a scan \<Rightarrow> error option \<times> sparse" where
  "create_mobile_brick_colmap_files np orig_dir =
     (let none = \<lparr>images_txt = None, cameras_txt = None, points3D_txt = None\<rparr> in
      case scan_pose orig_dir of
        None \<Rightarrow> (Some FileNotFoundError, none)
      | Some extrinsics_dir \<Rightarrow>
     (case scan_intrinsic orig_dir of
        None \<Rightarrow> (Some FileNotFoundError, none)
      | Some intrinsics_dir \<Rightarrow>
     (case scan_images orig_dir of
        None \<Rightarrow> (Some FileNotFoundError, none)
      | Some images_dir0 \<Rightarrow>
         (let images_dir = rm_checkpoints images_dir0;
              extrinsics_files = sorted_files extrinsics_dir;
              intrinsics_files = sorted_files intrinsics_dir;
              image_files = sorted_files images_dir
          in case images_loop np extrinsics_dir 0 (zip extrinsics_files image_files) images_header of
               (Some e, f) \<Rightarrow> (Some e, none\<lparr>images_txt := Some f\<rparr>)
             | (None, f) \<Rightarrow>
            (case cameras_loop np intrinsics_dir 0 (zip extrinsics_files image_files) cameras_header of
               (Some e, cameras_file) \<Rightarrow>
                 (Some e, none\<lparr>images_txt := Some f, cameras_txt := Some cameras_file\<rparr>)
             | (None, cameras_file) \<Rightarrow>
                 (None, \<lparr>images_txt = Some f, cameras_txt = Some cameras_file,
                         points3D_txt = Some []\<rparr>))))))"

section \<open>Example inputs\<close>

text \<open>
  Inputs for the examples. Numbers are integers here, printed the way Python prints a
  float of integral value. \<open>example_numeric\<close> stands for the numeric library on the
  identity: it inverts the identity matrix and converts the identity rotation, and
  raises on any other argument.
\<close>

definition example_video :: "string video" where
  "example_video =
     \<lparr>fps = ''30.0'', frame_width = 640, frame_height = 480, frames = [''f0'', ''f1'', ''f2'']\<rparr>"

definition example_world :: "string world" where
  "example_world =
     \<lparr>path_exists = (\<lambda>p. p = ''out''),
      videos = (\<lambda>p. if p = ''clip.mp4'' then Some example_video else None)\<rparr>"

definition example_images :: "(int \<times> int Image) list" where
  "example_images =
     [(2, \<lparr>qvec = (1, 0, 0, 0), tvec = (4, 5, 6)\<rparr>),
      (1, \<lparr>qvec = (0, 1, 0, 0), tvec = (7, 8, 9)\<rparr>)]"

definition example_parse :: "string \<Rightarrow> error + (int \<times> int Image) list" where
  "example_parse text =
     (if text = ''two records'' then Inr example_images
      else if text = [] then Inr []
      else Inl ValueError)"

definition example_parse_rev :: "string \<Rightarrow> error + (int \<times> int Image) list" where
  "example_parse_rev text =
     (case example_parse text of Inl e \<Rightarrow> Inl e | Inr d \<Rightarrow> Inr (rev d))"

definition example_files :: "string \<Rightarrow> string option" where
  "example_files path =
     (if path = ''images.txt'' then Some ''two records''
      else if path = ''empty.txt'' then Some []
      else if path = ''bad.txt'' then Some ''1 2 3''
      else None)"

definition example_q_to_R :: "int quat \<Rightarrow> int mat33" where
  "example_q_to_R q =
     (if q = (1, 0, 0, 0) then ((1, 0, 0), (0, 1, 0), (0, 0, 1))
      else ((1, 0, 0), (0, - 1, 0), (0, 0, - 1)))"

definition example_files_later :: "string \<Rightarrow> string option" where
  "example_files_later path =
     (if path = ''points3D.txt'' then Some [] else example_files path)"

definition identity4 :: "int matrix" where
  "identity4 = [[1, 0, 0, 0], [0, 1, 0, 0], [0, 0, 1, 0], [0, 0, 0, 1]]"

definition identity3 :: "int matrix" where
  "identity3 = [[1, 0, 0], [0, 1, 0], [0, 0, 1]]"

definition example_numeric :: "int numeric" where
  "example_numeric =
     \<lparr>linalg_inv = (\<lambda>m. if m = identity4 then Inr identity4 else Inl LinAlgError),
      from_matrix_as_quat = (\<lambda>m. if m = identity3 then Inr (0, 0, 0, 1) else Inl ValueError),
      from_quat_as_matrix = (\<lambda>q. if q = (0, 0, 0, 1) then Inr identity3 else Inl ValueError),
      float_str = (\<lambda>x. str_int x @ ''.0'')\<rparr>"

definition example_intrinsic :: "int matrix" where
  "example_intrinsic = [[1500, 0, 960], [0, 1400, 720], [0, 0, 1]]"

definition example_pose_dir :: "int matrix option directory" where
  "example_pose_dir =
     [(''b.txt'', File (Some identity4)), (''a.txt'', File (Some identity4)),
      (''c.txt'', File (Some identity4))]"

definition example_intrinsic_dir :: "int matrix option directory" where
  "example_intrinsic_dir =
     [(''a.txt'', File (Some example_intrinsic)), (''b.txt'', File (Some example_intrinsic))]"

definition example_images_dir :: "unit directory" where
  "example_images_dir = [(''b.png'', File ()), (''.ipynb_checkpoints'', Dir), (''a.png'', File ())]"

definition example_scan :: "int scan" where
  "example_scan =
     \<lparr>scan_pose = Some example_pose_dir, scan_intrinsic = Some example_intrinsic_dir,
      scan_images = Some example_images_dir\<rparr>"

definition mismatch_pose_dir :: "int matrix option directory" where
  "mismatch_pose_dir = [(''pose0.txt'', File (Some identity4))]"

definition mismatch_intrinsic_dir :: "int matrix option directory" where
  "mismatch_intrinsic_dir = [(''intrinsic0.txt'', File (Some example_intrinsic))]"

definition mismatch_images_dir :: "unit directory" where
  "mismatch_images_dir = [(''image0.png'', File ())]"

definition mismatch_scan :: "int scan" where
  "mismatch_scan =
     \<lparr>scan_pose = Some mismatch_pose_dir, scan_intrinsic = Some mismatch_intrinsic_dir,
      scan_images = Some mismatch_images_dir\<rparr>"

section \<open>Properties of the frame extractor\<close>

lemma decimal_val_snoc: "decimal_val (s @ [c]) = 10 * decimal_val s + digit_val c"
  by (simp add: decimal_val_def)

lemma digit_val_digit_char: "d < 10 \<Longrightarrow> digit_val (digit_char d) = d"
  by (simp add: digit_val_def digit_char_def)

lemma decimal_val_single: "decimal_val [c] = digit_val c"
  by (simp add: decimal_val_def)

lemma decimal_val_str_nat: "decimal_val (str_nat n) = n"
proof (induction n rule: str_nat.induct)
  case (1 n)
  show ?case
  proof (cases "n < 10")
    case True
    then show ?thesis
      by (subst str_nat.simps) (simp add: decimal_val_single digit_val_digit_char)
  next
    case False
    with 1 have "decimal_val (str_nat (n div 10)) = n div 10" by simp
    with False show ?thesis
      by (subst str_nat.simps) (simp add: decimal_val_snoc digit_val_digit_char)
  qed
qed

lemma decimal_val_zeros: "decimal_val (replicate k CHR ''0'' @ s) = decimal_val s"
proof (induction k)
  case 0
  then show ?case by simp
next
  case (Suc k)
  have "decimal_val (CHR ''0'' # t) = decimal_val t" for t
    by (simp add: decimal_val_def digit_val_def)
  with Suc show ?case by simp
qed

lemma decimal_val_format_05: "0 \<le> c \<Longrightarrow> int (decimal_val (format_05 c)) = c"
  by (simp add: format_05_def zfill_def decimal_val_zeros decimal_val_str_nat)

lemma length_format_05: "0 \<le> c \<Longrightarrow> 5 \<le> length (format_05 c)"
  by (simp add: format_05_def zfill_def)

lemma frame_name_inj: "0 \<le> c \<Longrightarrow> 0 \<le> d \<Longrightarrow> frame_name c = frame_name d \<Longrightarrow> c = d"
  by (metis frame_name_def same_append_eq append_same_eq decimal_val_format_05)

lemma path_join_frame_name: "path_join f (frame_name c) = (if f = [] \<or> last f = CHR ''/'' then f else f @ ''/'') @ frame_name c"
  by (simp add: path_join_def frame_name_def)

lemma frame_path_inj:
  "0 \<le> c \<Longrightarrow> 0 \<le> d \<Longrightarrow> path_join f (frame_name c) = path_join f (frame_name d) \<Longrightarrow> c = d"
proof -
  assume c: "0 \<le> c" and d: "0 \<le> d"
    and eq: "path_join f (frame_name c) = path_join f (frame_name d)"
  from eq have "frame_name c = frame_name d"
    by (simp only: path_join_frame_name same_append_eq)
  with c d show "c = d" by (rule frame_name_inj)
qed

lemma write_loop_eq:
  "interval \<noteq> 0 \<Longrightarrow>
   write_loop f interval c fs s =
     (None, s\<lparr>written := written s @
        map (\<lambda>i. (path_join f (frame_name (c + int i)), fs ! i))
            (filter (\<lambda>i. (c + int i) mod interval = 0) [0..<length fs])\<rparr>)"
proof (induction fs arbitrary: c s)
  case Nil
  then show ?case by simp
next
  case (Cons x fs)
  have upt: "[0..<Suc (length fs)] = 0 # map Suc [0..<length fs]"
    by (simp add: upt_conv_Cons map_Suc_upt del: upt_Suc)
  have shift: "c + 1 + int i = c + int (Suc i)" for i by simp
  show ?case
    using Cons.prems
    by (simp add: Cons.IH upt filter_map comp_def shift del: upt_Suc of_nat_Suc)
qed

lemma count_multiples_nat:
  "0 < m \<Longrightarrow>
   length (filter (\<lambda>i. i mod m = 0) [0..<N]) = N div m + (if N mod m = 0 then 0 else 1)"
proof (induction N)
  case 0
  then show ?case by simp
next
  case (Suc N)
  then show ?case
    by (auto simp: div_Suc mod_Suc split: if_splits)
qed

lemma ceiling_nat_div:
  assumes "0 < m"
  shows "nat \<lceil>real N / real m\<rceil> = N div m + (if N mod m = 0 then 0 else 1)"
proof -
  have "\<lceil>real N / real m\<rceil> = \<lceil>real_of_int (int N) / real_of_int (int m)\<rceil>" by simp
  also have "\<dots> = - (- int N div int m)" by (rule ceiling_divide_eq_div)
  also have "\<dots> = int (N div m + (if N mod m = 0 then 0 else 1))"
    using assms by (simp add: zdiv_zminus1_eq_if of_nat_div flip: of_nat_mod)
  finally show ?thesis by simp
qed

lemma int_mod_pos:
  assumes "0 < k"
  shows "(int i mod k = 0) = (i mod nat k = 0)"
proof -
  from assms have "int i mod k = int i mod int (nat k)" by simp
  also have "\<dots> = int (i mod nat k)" by (simp only: of_nat_mod)
  finally show ?thesis by simp
qed

lemma extract_frames_opened:
  assumes "videos w video_path = Some vidcap" and "interval \<noteq> 0"
  shows "fst (extract_frames w video_path output_folder interval verbose) = None"
    and "written (snd (extract_frames w video_path output_folder interval verbose)) =
          map (\<lambda>i. (path_join output_folder (frame_name (int i)), frames vidcap ! i))
              (filter (\<lambda>i. int i mod interval = 0) [0..<length (frames vidcap)])"
  using assms by (simp_all add: extract_frames_def Let_def write_loop_eq say_def)

lemma frame_paths_distinct:
  "distinct (map (\<lambda>i. path_join f (frame_name (int i))) (filter P [0..<n]))"
proof -
  have "inj_on (\<lambda>i. path_join f (frame_name (int i))) (set (filter P [0..<n]))"
    by (rule inj_onI) (use frame_path_inj [of "int _" "int _" f] in auto)
  then show ?thesis by (simp add: distinct_map)
qed

text \<open>
  Claim C2. For a video that opens with \<open>N\<close> readable frames and an interval \<open>k \<ge> 1\<close>,
  \<open>extract_frames\<close> returns normally and writes one image for each frame number
  \<open>i < N\<close> that is a multiple of \<open>k\<close>, holding frame \<open>i\<close>, under the name
  \<^verbatim>\<open>IMG_\<close> + the decimal digits of \<open>i\<close> padded with zeros on the left to five characters
  + \<^verbatim>\<open>.png\<close> in the output folder. The paths are pairwise different, so the number of
  files written is the number of writes, which is \<open>\<lceil>N / k\<rceil>\<close>.
\<close>

theorem extract_frames_every_kth:
  assumes "videos w video_path = Some vidcap" and "1 \<le> interval"
  shows "fst (extract_frames w video_path output_folder interval verbose) = None
       \<and> written (snd (extract_frames w video_path output_folder interval verbose)) =
           map (\<lambda>i. (path_join output_folder (frame_name (int i)), frames vidcap ! i))
               (filter (\<lambda>i. int i mod interval = 0) [0..<length (frames vidcap)])
       \<and> distinct (map fst (written (snd (extract_frames w video_path output_folder interval verbose))))
       \<and> card (fst ` set (written (snd (extract_frames w video_path output_folder interval verbose))))
           = nat \<lceil>real (length (frames vidcap)) / real_of_int interval\<rceil>
       \<and> (\<forall>i. frame_name (int i) = ''IMG_'' @ replicate (5 - length (str_nat i)) CHR ''0'' @ str_nat i @ ''.png''
              \<and> decimal_val (str_nat i) = i)"
proof -
  let ?ws = "written (snd (extract_frames w video_path output_folder interval verbose))"
  let ?N = "length (frames vidcap)"
  from assms have nz: "interval \<noteq> 0" and pos: "0 < interval" and p: "0 < nat interval"
    by simp_all
  note ws = extract_frames_opened(2) [OF assms(1) nz, of output_folder verbose]
  have d: "distinct (map fst ?ws)"
    by (simp only: ws map_map comp_def fst_conv) (rule frame_paths_distinct)
  have "length ?ws = length (filter (\<lambda>i. i mod nat interval = 0) [0..<?N])"
    by (simp add: ws int_mod_pos [OF pos])
  also have "\<dots> = nat \<lceil>real ?N / real (nat interval)\<rceil>"
    by (simp only: count_multiples_nat [OF p] ceiling_nat_div [OF p])
  also have "real (nat interval) = real_of_int interval"
    using pos by simp
  finally have len: "length ?ws = nat \<lceil>real ?N / real_of_int interval\<rceil>" .
  have "card (fst ` set ?ws) = length (map fst ?ws)"
    using d by (metis distinct_card set_map)
  with len have c: "card (fst ` set ?ws) = nat \<lceil>real ?N / real_of_int interval\<rceil>"
    by simp
  have n: "\<forall>i. frame_name (int i) = ''IMG_'' @ replicate (5 - length (str_nat i)) CHR ''0'' @ str_nat i @ ''.png''
              \<and> decimal_val (str_nat i) = i"
    by (simp add: frame_name_def format_05_def zfill_def decimal_val_str_nat)
  from extract_frames_opened(1) [OF assms(1) nz] ws d c n show ?thesis by simp
qed

text \<open>
  Claim C7. When the video cannot be opened, \<open>extract_frames\<close> returns without an
  exception, writes no image, and the last line it prints is the error message. Its only
  other effect, which comes before the video is opened, is to create the output folder
  when that does not exist.
\<close>

theorem extract_frames_unopened:
  assumes "videos w video_path = None"
  shows "fst (extract_frames w video_path output_folder interval verbose) = None
       \<and> written (snd (extract_frames w video_path output_folder interval verbose)) = []
       \<and> last (printed (snd (extract_frames w video_path output_folder interval verbose)))
           = ''Error: Could not open video.''
       \<and> made_dirs (snd (extract_frames w video_path output_folder interval verbose))
           = (if path_exists w output_folder then [] else [output_folder])"
  using assms by (simp add: extract_frames_def Let_def say_def)

text \<open>
  Claim C6, as amended: \<open>extract_frames\<close> has no check of the interval. With interval 0
  and a video of at least one frame, every call (verbose or not) raises ZeroDivisionError
  at the first test of the loop, before any image is written: what it has done until then
  is to create the output folder when absent and, when verbose, to print its first three
  lines. With a negative interval the call returns normally and writes the frames whose
  number is a multiple of the absolute value of the interval.
\<close>

theorem extract_frames_unguarded:
  assumes "videos w video_path = Some vidcap"
  shows "(interval = 0 \<and> frames vidcap \<noteq> [] \<longrightarrow>
            extract_frames w video_path output_folder interval verbose
              = (Some ZeroDivisionError,
                 \<lparr>printed =
                    (if verbose
                     then [if path_exists w output_folder
                           then ''Output folder '' @ output_folder @ '' exists''
                           else ''Creating output folder '' @ output_folder,
                           ''Video resolution: '' @ str_int (frame_width vidcap) @ ''x''
                             @ str_int (frame_height vidcap) @ '', FPS: '' @ fps vidcap,
                           ''Extracting frames...'']
                     else []),
                  made_dirs = (if path_exists w output_folder then [] else [output_folder]),
                  written = []\<rparr>))
       \<and> (interval < 0 \<longrightarrow>
            fst (extract_frames w video_path output_folder interval verbose) = None
          \<and> written (snd (extract_frames w video_path output_folder interval verbose)) =
              map (\<lambda>i. (path_join output_folder (frame_name (int i)), frames vidcap ! i))
                  (filter (\<lambda>i. \<bar>interval\<bar> dvd int i) [0..<length (frames vidcap)]))"
proof (intro conjI impI)
  assume "interval = 0 \<and> frames vidcap \<noteq> []"
  then obtain x xs where "frames vidcap = x # xs" and "interval = 0"
    by (cases "frames vidcap") auto
  with assms show "extract_frames w video_path output_folder interval verbose
              = (Some ZeroDivisionError,
                 \<lparr>printed =
                    (if verbose
                     then [if path_exists w output_folder
                           then ''Output folder '' @ output_folder @ '' exists''
                           else ''Creating output folder '' @ output_folder,
                           ''Video resolution: '' @ str_int (frame_width vidcap) @ ''x''
                             @ str_int (frame_height vidcap) @ '', FPS: '' @ fps vidcap,
                           ''Extracting frames...'']
                     else []),
                  made_dirs = (if path_exists w output_folder then [] else [output_folder]),
                  written = []\<rparr>)"
    by (simp add: extract_frames_def Let_def say_def)
next
  assume neg: "interval < 0"
  then have nz: "interval \<noteq> 0" by simp
  show "fst (extract_frames w video_path output_folder interval verbose) = None"
    by (rule extract_frames_opened(1) [OF assms nz])
  have "(int i mod interval = 0) = (\<bar>interval\<bar> dvd int i)" for i
    by (simp add: mod_eq_0_iff_dvd)
  then show "written (snd (extract_frames w video_path output_folder interval verbose)) =
              map (\<lambda>i. (path_join output_folder (frame_name (int i)), frames vidcap ! i))
                  (filter (\<lambda>i. \<bar>interval\<bar> dvd int i) [0..<length (frames vidcap)])"
    by (simp add: extract_frames_opened(2) [OF assms nz])
qed

theorem extract_frames_every_kth_witness:
  "videos example_world ''clip.mp4'' = Some example_video \<and> (1::int) \<le> 2
   \<and> written (snd (extract_frames example_world ''clip.mp4'' ''out'' 2 True))
       = [(''out/IMG_00000.png'', ''f0''), (''out/IMG_00002.png'', ''f2'')]
   \<and> card (fst ` set (written (snd (extract_frames example_world ''clip.mp4'' ''out'' 2 True))))
       = nat \<lceil>real (length (frames example_video)) / real_of_int 2\<rceil>"
proof -
  have h1: "videos example_world ''clip.mp4'' = Some example_video"
    by (simp add: example_world_def)
  have h2: "(1::int) \<le> 2" by simp
  have ev: "written (snd (extract_frames example_world ''clip.mp4'' ''out'' 2 True))
       = [(''out/IMG_00000.png'', ''f0''), (''out/IMG_00002.png'', ''f2'')]"
    by code_simp
  from extract_frames_every_kth [OF h1 h2, of "''out''" True] h1 h2 ev show ?thesis
    by blast
qed

theorem extract_frames_unopened_witness:
  "videos example_world ''nothing.mp4'' = None
   \<and> fst (extract_frames example_world ''nothing.mp4'' ''new'' 2 True) = None
   \<and> written (snd (extract_frames example_world ''nothing.mp4'' ''new'' 2 True)) = []
   \<and> last (printed (snd (extract_frames example_world ''nothing.mp4'' ''new'' 2 True)))
       = ''Error: Could not open video.''
   \<and> made_dirs (snd (extract_frames example_world ''nothing.mp4'' ''new'' 2 True))
       = (if path_exists example_world ''new'' then [] else [''new''])"
proof -
  have h: "videos example_world ''nothing.mp4'' = None"
    by (simp add: example_world_def)
  from h extract_frames_unopened [OF h, of "''new''" 2 True] show ?thesis
    by (rule conjI)
qed

text \<open>
  Claim C6 as stated fails. On a video of three frames, interval \<open>-1\<close> is neither rejected
  nor replaced by the default 20: the call writes all three frames, where the default
  writes the first only. Interval 0 reaches the test \<^verbatim>\<open>count % interval\<close> of the loop,
  which raises ZeroDivisionError.
\<close>

theorem extract_frames_interval_counterexample:
  "extract_frames example_world ''clip.mp4'' ''out'' (- 1) False
     = (None, \<lparr>printed = [], made_dirs = [],
               written = [(''out/IMG_00000.png'', ''f0''), (''out/IMG_00001.png'', ''f1''),
                          (''out/IMG_00002.png'', ''f2'')]\<rparr>)
   \<and> extract_frames example_world ''clip.mp4'' ''out'' 20 False
     = (None, \<lparr>printed = [], made_dirs = [], written = [(''out/IMG_00000.png'', ''f0'')]\<rparr>)
   \<and> extract_frames example_world ''clip.mp4'' ''out'' 0 False
     = (Some ZeroDivisionError, \<lparr>printed = [], made_dirs = [], written = []\<rparr>)"
  by code_simp

theorem extract_frames_unguarded_witness:
  "videos example_world ''clip.mp4'' = Some example_video
   \<and> frames example_video \<noteq> []
   \<and> extract_frames example_world ''clip.mp4'' ''out'' 0 True
       = (Some ZeroDivisionError,
          \<lparr>printed =
             (if True
              then [if path_exists example_world ''out''
                    then ''Output folder '' @ ''out'' @ '' exists''
                    else ''Creating output folder '' @ ''out'',
                    ''Video resolution: '' @ str_int (frame_width example_video) @ ''x''
                      @ str_int (frame_height example_video) @ '', FPS: '' @ fps example_video,
                    ''Extracting frames...'']
              else []),
           made_dirs = (if path_exists example_world ''out'' then [] else [''out'']),
           written = []\<rparr>)
   \<and> extract_frames example_world ''clip.mp4'' ''out'' 0 True
       = (Some ZeroDivisionError,
          \<lparr>printed = [''Output folder out exists'', ''Video resolution: 640x480, FPS: 30.0'',
                      ''Extracting frames...''],
           made_dirs = [], written = []\<rparr>)
   \<and> fst (extract_frames example_world ''clip.mp4'' ''out'' (- 2) True) = None
   \<and> written (snd (extract_frames example_world ''clip.mp4'' ''out'' (- 2) True)) =
       map (\<lambda>i. (path_join ''out'' (frame_name (int i)), frames example_video ! i))
           (filter (\<lambda>i. \<bar>- 2 :: int\<bar> dvd int i) [0..<length (frames example_video)])"
proof -
  have h: "videos example_world ''clip.mp4'' = Some example_video"
    by (simp add: example_world_def)
  have ne: "frames example_video \<noteq> []"
    by (simp add: example_video_def)
  have neg: "(- 2 :: int) < 0" by simp
  from extract_frames_unguarded [OF h, of 0 "''out''" True] ne
  have zero: "extract_frames example_world ''clip.mp4'' ''out'' 0 True
       = (Some ZeroDivisionError,
          \<lparr>printed =
             (if True
              then [if path_exists example_world ''out''
                    then ''Output folder '' @ ''out'' @ '' exists''
                    else ''Creating output folder '' @ ''out'',
                    ''Video resolution: '' @ str_int (frame_width example_video) @ ''x''
                      @ str_int (frame_height example_video) @ '', FPS: '' @ fps example_video,
                    ''Extracting frames...'']
              else []),
           made_dirs = (if path_exists example_world ''out'' then [] else [''out'']),
           written = []\<rparr>)"
    by blast
  have ev: "extract_frames example_world ''clip.mp4'' ''out'' 0 True
       = (Some ZeroDivisionError,
          \<lparr>printed = [''Output folder out exists'', ''Video resolution: 640x480, FPS: 30.0'',
                      ''Extracting frames...''],
           made_dirs = [], written = []\<rparr>)"
    by code_simp
  from extract_frames_unguarded [OF h, of "- 2" "''out''" True] neg
  have minus: "fst (extract_frames example_world ''clip.mp4'' ''out'' (- 2) True) = None
   \<and> written (snd (extract_frames example_world ''clip.mp4'' ''out'' (- 2) True)) =
       map (\<lambda>i. (path_join ''out'' (frame_name (int i)), frames example_video ! i))
           (filter (\<lambda>i. \<bar>- 2 :: int\<bar> dvd int i) [0..<length (frames example_video)])"
    by blast
  from h ne zero ev minus show ?thesis by blast
qed

section \<open>Properties of the pose reader\<close>

lemma map2_same: "map2 f (map g xs) (map h xs) = map (\<lambda>x. f (g x) (h x)) xs"
  by (induction xs) simp_all

lemma poses_from_file_ok:
  assumes "files f = Some text" and "parse text = Inr d" and "d \<noteq> []"
  shows "poses_from_file parse q files f =
           Inr (map (\<lambda>(k, im). cat_last (q (qvec im)) (tvec im)) (sort_key fst d))"
proof -
  have ne: "sort_key fst d \<noteq> []"
    using assms(3) by (metis length_sort list.size(3) length_0_conv)
  have "map2 cat_last (map q (map (\<lambda>(_, im). qvec im) (sort_key fst d)))
             (map (\<lambda>(_, im). tvec im) (sort_key fst d))
        = map (\<lambda>(k, im). cat_last (q (qvec im)) (tvec im)) (sort_key fst d)"
    by (simp only: map_map map2_same) (simp add: comp_def case_prod_unfold)
  with assms(1,2) ne show ?thesis
    by (simp add: poses_from_file_def read_images_text_def np_stack_def Let_def)
qed

lemma poses_from_file_empty:
  assumes "files f = Some text" and "parse text = Inr []"
  shows "poses_from_file parse q files f = Inl ValueError"
  using assms by (simp add: poses_from_file_def read_images_text_def np_stack_def)

lemma poses_from_file_parse_error:
  assumes "files f = Some text" and "parse text = Inl e"
  shows "poses_from_file parse q files f = Inl e"
  using assms by (simp add: poses_from_file_def read_images_text_def)

lemma poses_from_file_missing:
  assumes "files f = None"
  shows "poses_from_file parse q files f = Inl FileNotFoundError"
  using assms by (simp add: poses_from_file_def read_images_text_def)

lemma sort_key_fst_strict:
  assumes "distinct (map fst d)"
  shows "sorted_wrt (<) (map fst (sort_key fst d))"
proof -
  have "mset (map fst (sort_key fst d)) = mset (map fst d)" by simp
  then have "distinct (map fst (sort_key fst d))"
    using assms by (metis mset_eq_imp_distinct_iff)
  then show ?thesis
    by (simp add: strict_sorted_iff)
qed

lemma sort_key_fst_unique:
  assumes "distinct (map fst d)" and "mset d' = mset d"
  shows "sort_key fst d' = sort_key fst d"
proof -
  have inj: "inj_on fst (set d')"
    using assms by (metis distinct_map mset_eq_setD)
  have ms: "mset d' = mset (sort_key fst d)" using assms(2) by simp
  have "sorted (map fst (sort_key fst d))" by simp
  with ms inj show ?thesis by (rule sort_key_inj_key_eq)
qed

text \<open>
  Claim C5. For an images-list file that exists, parses, and has at least one image record
  (the identifiers of the records being distinct, as the keys of a dictionary are),
  \<open>poses_from_file\<close> returns one pose per record, in the order of strictly ascending
  image identifier; the pose of a record is the rotation matrix \<open>q_to_R\<close> gives for its
  quaternion, with the entries of its translation as the fourth column.
\<close>

theorem poses_from_file_sorted_poses:
  assumes "files extrinsic_file = Some text"
    and "parse text = Inr extrinsics"
    and "extrinsics \<noteq> []"
    and "distinct (map fst extrinsics)"
  shows "(\<exists>images. mset images = mset extrinsics \<and> sorted_wrt (<) (map fst images)
           \<and> poses_from_file parse q_to_R files extrinsic_file
               = Inr (map (\<lambda>(image_id, im). cat_last (q_to_R (qvec im)) (tvec im)) images))
       \<and> (\<forall>r00 r01 r02 r10 r11 r12 r20 r21 r22 t0 t1 t2.
             cat_last ((r00, r01, r02), (r10, r11, r12), (r20, r21, r22)) (t0, t1, t2 :: 'a)
               = ((r00, r01, r02, t0), (r10, r11, r12, t1), (r20, r21, r22, t2)))"
proof (intro conjI exI [of _ "sort_key fst extrinsics"])
  show "mset (sort_key fst extrinsics) = mset extrinsics" by simp
  show "sorted_wrt (<) (map fst (sort_key fst extrinsics))"
    using assms(4) by (rule sort_key_fst_strict)
  show "poses_from_file parse q_to_R files extrinsic_file
          = Inr (map (\<lambda>(image_id, im). cat_last (q_to_R (qvec im)) (tvec im))
                     (sort_key fst extrinsics))"
    using assms(1-3) by (simp add: poses_from_file_ok)
  show "\<forall>r00 r01 r02 r10 r11 r12 r20 r21 r22 t0 t1 t2.
          cat_last ((r00, r01, r02), (r10, r11, r12), (r20, r21, r22)) (t0, t1, t2 :: 'a)
            = ((r00, r01, r02, t0), (r10, r11, r12, t1), (r20, r21, r22, t2))"
    by (simp add: cat_last_def)
qed

theorem poses_from_file_sorted_poses_witness:
  "example_files ''images.txt'' = Some ''two records''
   \<and> example_parse ''two records'' = Inr example_images
   \<and> example_images \<noteq> []
   \<and> distinct (map fst example_images)
   \<and> (\<exists>images. mset images = mset example_images \<and> sorted_wrt (<) (map fst images)
         \<and> poses_from_file example_parse example_q_to_R example_files ''images.txt''
             = Inr (map (\<lambda>(image_id, im). cat_last (example_q_to_R (qvec im)) (tvec im)) images))
   \<and> poses_from_file example_parse example_q_to_R example_files ''images.txt''
       = Inr [((1, 0, 0, 7), (0, - 1, 0, 8), (0, 0, - 1, 9)),
              ((1, 0, 0, 4), (0, 1, 0, 5), (0, 0, 1, 6))]"
proof -
  have h1: "example_files ''images.txt'' = Some ''two records''"
    by (simp add: example_files_def)
  have h2: "example_parse ''two records'' = Inr example_images"
    by (simp add: example_parse_def)
  have h3: "example_images \<noteq> []"
    by (simp add: example_images_def)
  have h4: "distinct (map fst example_images)"
    by (simp add: example_images_def)
  have ev: "poses_from_file example_parse example_q_to_R example_files ''images.txt''
       = Inr [((1, 0, 0, 7), (0, - 1, 0, 8), (0, 0, - 1, 9)),
              ((1, 0, 0, 4), (0, 1, 0, 5), (0, 0, 1, 6))]"
    by code_simp
  from poses_from_file_sorted_poses [where files = example_files and parse = example_parse
      and q_to_R = example_q_to_R, OF h1 h2 h3 h4] h1 h2 h3 h4 ev
  show ?thesis by blast
qed

text \<open>
  Claim C8. \<open>poses_from_file\<close> fails with the reader's error when the images-list file
  is missing or does not parse, fails with the ValueError of \<^verbatim>\<open>np.stack\<close> when the file
  has no image record, and in no case returns an empty sequence of poses.
\<close>

theorem poses_from_file_fails:
  "(files extrinsic_file = None \<longrightarrow>
      poses_from_file parse q_to_R files extrinsic_file = Inl FileNotFoundError)
   \<and> (\<forall>text e. files extrinsic_file = Some text \<and> parse text = Inl e \<longrightarrow>
         poses_from_file parse q_to_R files extrinsic_file = Inl e)
   \<and> (\<forall>text. files extrinsic_file = Some text \<and> parse text = Inr [] \<longrightarrow>
         poses_from_file parse q_to_R files extrinsic_file = Inl ValueError)
   \<and> poses_from_file parse q_to_R files extrinsic_file \<noteq> Inr []"
proof (intro conjI allI impI)
  assume "files extrinsic_file = None"
  then show "poses_from_file parse q_to_R files extrinsic_file = Inl FileNotFoundError"
    by (rule poses_from_file_missing)
next
  fix content e
  assume "files extrinsic_file = Some content \<and> parse content = Inl e"
  then show "poses_from_file parse q_to_R files extrinsic_file = Inl e"
    by (simp add: poses_from_file_parse_error)
next
  fix content
  assume "files extrinsic_file = Some content \<and> parse content = Inr []"
  then show "poses_from_file parse q_to_R files extrinsic_file = Inl ValueError"
    by (simp add: poses_from_file_empty)
next
  show "poses_from_file parse q_to_R files extrinsic_file \<noteq> Inr []"
  proof (cases "files extrinsic_file")
    case None
    then show ?thesis by (simp add: poses_from_file_missing)
  next
    case (Some content)
    show ?thesis
    proof (cases "parse content")
      case (Inl e)
      with Some show ?thesis by (simp add: poses_from_file_parse_error)
    next
      case (Inr d)
      show ?thesis
      proof (cases "d = []")
        case True
        with Some Inr show ?thesis by (simp add: poses_from_file_empty)
      next
        case False
        then have "sort_key fst d \<noteq> []"
          by (metis length_sort list.size(3) length_0_conv)
        with Some Inr False show ?thesis by (simp add: poses_from_file_ok)
      qed
    qed
  qed
qed

theorem poses_from_file_fails_witness:
  "example_files ''absent.txt'' = None
   \<and> poses_from_file example_parse example_q_to_R example_files ''absent.txt'' = Inl FileNotFoundError
   \<and> example_files ''bad.txt'' = Some ''1 2 3'' \<and> example_parse ''1 2 3'' = Inl ValueError
   \<and> poses_from_file example_parse example_q_to_R example_files ''bad.txt'' = Inl ValueError
   \<and> example_files ''empty.txt'' = Some [] \<and> example_parse [] = Inr []
   \<and> poses_from_file example_parse example_q_to_R example_files ''empty.txt'' = Inl ValueError
   \<and> poses_from_file example_parse example_q_to_R example_files ''images.txt'' \<noteq> Inr []"
proof -
  have a: "example_files ''absent.txt'' = None"
    by (simp add: example_files_def)
  have b: "example_files ''bad.txt'' = Some ''1 2 3''" "example_parse ''1 2 3'' = Inl ValueError"
    by (simp_all add: example_files_def example_parse_def)
  have c: "example_files ''empty.txt'' = Some []" "example_parse [] = Inr []"
    by (simp_all add: example_files_def example_parse_def)
  from poses_from_file_fails [where files = example_files and extrinsic_file = "''absent.txt''"
      and parse = example_parse and q_to_R = example_q_to_R] a
  have 1: "poses_from_file example_parse example_q_to_R example_files ''absent.txt'' = Inl FileNotFoundError"
    by blast
  from poses_from_file_fails [where files = example_files and extrinsic_file = "''bad.txt''"
      and parse = example_parse and q_to_R = example_q_to_R] b
  have 2: "poses_from_file example_parse example_q_to_R example_files ''bad.txt'' = Inl ValueError"
    by blast
  from poses_from_file_fails [where files = example_files and extrinsic_file = "''empty.txt''"
      and parse = example_parse and q_to_R = example_q_to_R] c
  have 3: "poses_from_file example_parse example_q_to_R example_files ''empty.txt'' = Inl ValueError"
    by blast
  from poses_from_file_fails [where files = example_files and extrinsic_file = "''images.txt''"
      and parse = example_parse and q_to_R = example_q_to_R]
  have 4: "poses_from_file example_parse example_q_to_R example_files ''images.txt'' \<noteq> Inr []"
    by blast
  from a b c 1 2 3 4 show ?thesis by blast
qed

text \<open>
  Claim C9. Two calls of \<open>poses_from_file\<close> that find the same images-list file
  (whatever else differs between the two file systems) return the same result; the result
  does not depend on the order in which the reader puts the records into its dictionary;
  and a sequence of poses it returns is in the order of strictly ascending image
  identifier.
\<close>

theorem poses_from_file_deterministic:
  assumes "files extrinsic_file = files' extrinsic_file"
  shows "poses_from_file parse q_to_R files extrinsic_file
           = poses_from_file parse q_to_R files' extrinsic_file
       \<and> (\<forall>text d (parse' :: string \<Rightarrow> error + (int \<times> 'a Image) list) d'.
             files extrinsic_file = Some text \<and> parse text = Inr d \<and> parse' text = Inr d'
             \<and> distinct (map fst d) \<and> mset d' = mset d \<longrightarrow>
             poses_from_file parse' q_to_R files' extrinsic_file
               = poses_from_file parse q_to_R files extrinsic_file)
       \<and> (\<forall>text d.
             files extrinsic_file = Some text \<and> parse text = Inr d \<and> d \<noteq> []
             \<and> distinct (map fst d) \<longrightarrow>
             (\<exists>images. mset images = mset d \<and> sorted_wrt (<) (map fst images)
                \<and> poses_from_file parse q_to_R files' extrinsic_file
                    = Inr (map (\<lambda>(image_id, im). cat_last (q_to_R (qvec im)) (tvec im)) images)))"
proof (intro conjI allI impI)
  show same: "poses_from_file parse q_to_R files extrinsic_file
           = poses_from_file parse q_to_R files' extrinsic_file"
    using assms by (simp add: poses_from_file_def read_images_text_def)
next
  fix content d and parse' :: "string \<Rightarrow> error + (int \<times> 'a Image) list" and d'
  assume h: "files extrinsic_file = Some content \<and> parse content = Inr d \<and> parse' content = Inr d'
             \<and> distinct (map fst d) \<and> mset d' = mset d"
  then have s: "sort_key fst d' = sort_key fst d"
    by (simp add: sort_key_fst_unique)
  from h assms have f': "files' extrinsic_file = Some content" by simp
  show "poses_from_file parse' q_to_R files' extrinsic_file
               = poses_from_file parse q_to_R files extrinsic_file"
    using h f' s by (simp add: poses_from_file_def read_images_text_def)
next
  fix content d
  assume h: "files extrinsic_file = Some content \<and> parse content = Inr d \<and> d \<noteq> []
             \<and> distinct (map fst d)"
  with assms have f': "files' extrinsic_file = Some content" by simp
  from h have p: "parse content = Inr d" and ne: "d \<noteq> []" and di: "distinct (map fst d)"
    by simp_all
  show "\<exists>images. mset images = mset d \<and> sorted_wrt (<) (map fst images)
                \<and> poses_from_file parse q_to_R files' extrinsic_file
                    = Inr (map (\<lambda>(image_id, im). cat_last (q_to_R (qvec im)) (tvec im)) images)"
    using f' p ne sort_key_fst_strict [OF di]
    by (intro exI [of _ "sort_key fst d"]) (simp add: poses_from_file_ok)
qed

theorem poses_from_file_deterministic_witness:
  "example_files ''images.txt'' = example_files_later ''images.txt''
   \<and> example_files ''images.txt'' = Some ''two records''
   \<and> example_parse ''two records'' = Inr example_images
   \<and> example_parse_rev ''two records'' = Inr (rev example_images)
   \<and> example_images \<noteq> []
   \<and> distinct (map fst example_images)
   \<and> mset (rev example_images) = mset example_images
   \<and> poses_from_file example_parse example_q_to_R example_files ''images.txt''
       = poses_from_file example_parse example_q_to_R example_files_later ''images.txt''
   \<and> poses_from_file example_parse_rev example_q_to_R example_files_later ''images.txt''
       = poses_from_file example_parse example_q_to_R example_files ''images.txt''
   \<and> (\<exists>images. mset images = mset example_images \<and> sorted_wrt (<) (map fst images)
         \<and> poses_from_file example_parse example_q_to_R example_files_later ''images.txt''
             = Inr (map (\<lambda>(image_id, im). cat_last (example_q_to_R (qvec im)) (tvec im)) images))"
proof -
  have h0: "example_files ''images.txt'' = example_files_later ''images.txt''"
    by (simp add: example_files_later_def)
  have h1: "example_files ''images.txt'' = Some ''two records''"
    by (simp add: example_files_def)
  have h2: "example_parse ''two records'' = Inr example_images"
    by (simp add: example_parse_def)
  have h3: "example_parse_rev ''two records'' = Inr (rev example_images)"
    by (simp add: example_parse_rev_def example_parse_def)
  have h4: "example_images \<noteq> []" "distinct (map fst example_images)"
    by (simp_all add: example_images_def)
  have h5: "mset (rev example_images) = mset example_images" by simp
  from poses_from_file_deterministic [where files = example_files and files' = example_files_later
      and parse = example_parse and q_to_R = example_q_to_R, OF h0] h0 h1 h2 h3 h4 h5
  show ?thesis by blast
qed

section \<open>Properties of the known-pose file synthesizer\<close>

lemma images_loop_None:
  "images_loop np d i zs f = (None, f') \<Longrightarrow>
   \<exists>recs. length recs = length zs \<and> f' = f @ concat (map (\<lambda>l. [l, []]) recs)
     \<and> (\<forall>j<length zs. image_line np d (i + j) (fst (zs ! j)) (snd (zs ! j)) = Inr (recs ! j))"
proof (induction zs arbitrary: i f)
  case Nil
  then show ?case by simp
next
  case (Cons z zs)
  obtain a b where z: "z = (a, b)" by (cases z)
  from Cons.prems z obtain line where
      line: "image_line np d i a b = Inr line"
      and rest: "images_loop np d (i + 1) zs (f @ [line, []]) = (None, f')"
    by (auto split: sum.splits)
  from Cons.IH [OF rest] obtain recs where
      len: "length recs = length zs"
      and f': "f' = (f @ [line, []]) @ concat (map (\<lambda>l. [l, []]) recs)"
      and each: "\<forall>j<length zs. image_line np d (i + 1 + j) (fst (zs ! j)) (snd (zs ! j)) = Inr (recs ! j)"
    by blast
  have "\<forall>j<length (z # zs). image_line np d (i + j) (fst ((z # zs) ! j)) (snd ((z # zs) ! j))
          = Inr ((line # recs) ! j)"
  proof (intro allI impI)
    fix j assume j: "j < length (z # zs)"
    show "image_line np d (i + j) (fst ((z # zs) ! j)) (snd ((z # zs) ! j)) = Inr ((line # recs) ! j)"
    proof (cases j)
      case 0
      with line z show ?thesis by simp
    next
      case (Suc k)
      with j each show ?thesis by simp
    qed
  qed
  with len f' show ?case
    by (intro exI [of _ "line # recs"]) simp
qed

lemma cameras_loop_None:
  "cameras_loop np d i zs f = (None, f') \<Longrightarrow>
   \<exists>cams. length cams = length zs \<and> f' = f @ cams
     \<and> (\<forall>j<length zs. camera_line np d (i + j) (fst (zs ! j)) = Inr (cams ! j))"
proof (induction zs arbitrary: i f)
  case Nil
  then show ?case by simp
next
  case (Cons z zs)
  obtain a b where z: "z = (a, b)" by (cases z)
  from Cons.prems z obtain line where
      line: "camera_line np d i a = Inr line"
      and rest: "cameras_loop np d (i + 1) zs (f @ [line]) = (None, f')"
    by (auto split: sum.splits)
  from Cons.IH [OF rest] obtain cams where
      len: "length cams = length zs"
      and f': "f' = (f @ [line]) @ cams"
      and each: "\<forall>j<length zs. camera_line np d (i + 1 + j) (fst (zs ! j)) = Inr (cams ! j)"
    by blast
  have "\<forall>j<length (z # zs). camera_line np d (i + j) (fst ((z # zs) ! j)) = Inr ((line # cams) ! j)"
  proof (intro allI impI)
    fix j assume j: "j < length (z # zs)"
    show "camera_line np d (i + j) (fst ((z # zs) ! j)) = Inr ((line # cams) ! j)"
    proof (cases j)
      case 0
      with line z show ?thesis by simp
    next
      case (Suc k)
      with j each show ?thesis by simp
    qed
  qed
  with len f' show ?case
    by (intro exI [of _ "line # cams"]) simp
qed

lemma camera_line_no_file:
  "\<forall>c. map_of d name \<noteq> Some (File c) \<Longrightarrow> \<exists>e. camera_line np d i name = Inl e"
  by (auto simp: camera_line_def loadtxt_def split: option.splits entry.splits)

lemma cameras_loop_fails:
  "\<exists>z\<in>set zs. \<forall>c. map_of d (fst z) \<noteq> Some (File c) \<Longrightarrow> fst (cameras_loop np d i zs f) \<noteq> None"
proof (induction zs arbitrary: i f)
  case Nil
  then show ?case by simp
next
  case (Cons z zs)
  obtain a b where z: "z = (a, b)" by (cases z)
  show ?case
  proof (cases "camera_line np d i a")
    case (Inl e)
    with z show ?thesis by simp
  next
    case (Inr line)
    then have "\<exists>c. map_of d a = Some (File c)"
      using camera_line_no_file [of d a np i] by auto
    with Cons.prems z have "\<exists>z\<in>set zs. \<forall>c. map_of d (fst z) \<noteq> Some (File c)" by auto
    from Cons.IH [OF this] Inr z show ?thesis by simp
  qed
qed

lemma create_unfold:
  assumes "scan_pose s = Some P" and "scan_intrinsic s = Some K" and "scan_images s = Some I"
  shows "create_mobile_brick_colmap_files np s =
    (let zs = zip (sorted_files P) (sorted_files (rm_checkpoints I)) in
     case images_loop np P 0 zs images_header of
       (Some e, f) \<Rightarrow> (Some e, \<lparr>images_txt = Some f, cameras_txt = None, points3D_txt = None\<rparr>)
     | (None, f) \<Rightarrow>
       (case cameras_loop np K 0 zs cameras_header of
          (Some e, cf) \<Rightarrow> (Some e, \<lparr>images_txt = Some f, cameras_txt = Some cf, points3D_txt = None\<rparr>)
        | (None, cf) \<Rightarrow> (None, \<lparr>images_txt = Some f, cameras_txt = Some cf, points3D_txt = Some []\<rparr>)))"
  using assms
  by (simp add: create_mobile_brick_colmap_files_def Let_def split: prod.splits option.splits)

lemma camera_line_Inr:
  assumes "camera_line np d i name = Inr line"
  shows "\<exists>m fx fy cx cy. map_of d name = Some (File (Some m))
           \<and> at2 m 0 0 = Inr fx \<and> at2 m 1 1 = Inr fy \<and> at2 m 0 2 = Inr cx \<and> at2 m 1 2 = Inr cy
           \<and> line = str_nat (i + 1) @ '' PINHOLE 1920 1440 '' @ float_str np fx @ '' ''
                 @ float_str np fy @ '' '' @ float_str np cx @ '' '' @ float_str np cy"
  using assms
  by (auto simp: camera_line_def loadtxt_def split: option.splits entry.splits sum.splits)

text \<open>
  Claim C10. When \<open>create_mobile_brick_colmap_files\<close> returns normally, the images list
  holds, after its header, one metadata line and one blank line per pair of
  \<^verbatim>\<open>zip(extrinsics_files, image_files)\<close>, and the cameras list, after its header, one line
  per pair: the number of records of both is the minimum of the number of pose files and
  the number of image files, whatever the intrinsics directory lists. The camera line
  number \<open>i\<close> is made from the matrix that the intrinsics directory holds under the name
  of the pose file number \<open>i\<close>. When the intrinsics directory has no file under the name
  of one of these pose files, the call fails.
\<close>

theorem synthesizer_record_counts:
  assumes "scan_pose orig_dir = Some extrinsics_dir"
    and "scan_intrinsic orig_dir = Some intrinsics_dir"
    and "scan_images orig_dir = Some images_dir"
  shows "(fst (create_mobile_brick_colmap_files np orig_dir) = None \<longrightarrow>
           (\<exists>recs cams.
               length recs = min (length (sorted_files extrinsics_dir))
                                 (length (sorted_files (rm_checkpoints images_dir)))
             \<and> length cams = min (length (sorted_files extrinsics_dir))
                                 (length (sorted_files (rm_checkpoints images_dir)))
             \<and> images_txt (snd (create_mobile_brick_colmap_files np orig_dir))
                 = Some (images_header @ concat (map (\<lambda>l. [l, []]) recs))
             \<and> cameras_txt (snd (create_mobile_brick_colmap_files np orig_dir))
                 = Some (cameras_header @ cams)
             \<and> (\<forall>i. i < length recs \<longrightarrow>
                   image_line np extrinsics_dir i (sorted_files extrinsics_dir ! i)
                     (sorted_files (rm_checkpoints images_dir) ! i) = Inr (recs ! i))
             \<and> (\<forall>i. i < length cams \<longrightarrow>
                   (\<exists>m fx fy cx cy.
                       map_of intrinsics_dir (sorted_files extrinsics_dir ! i) = Some (File (Some m))
                     \<and> at2 m 0 0 = Inr fx \<and> at2 m 1 1 = Inr fy
                     \<and> at2 m 0 2 = Inr cx \<and> at2 m 1 2 = Inr cy
                     \<and> cams ! i = str_nat (i + 1) @ '' PINHOLE 1920 1440 '' @ float_str np fx
                         @ '' '' @ float_str np fy @ '' '' @ float_str np cx @ '' ''
                         @ float_str np cy))))
       \<and> ((\<exists>i. i < min (length (sorted_files extrinsics_dir))
                        (length (sorted_files (rm_checkpoints images_dir)))
               \<and> (\<forall>c. map_of intrinsics_dir (sorted_files extrinsics_dir ! i) \<noteq> Some (File c))) \<longrightarrow>
            fst (create_mobile_brick_colmap_files np orig_dir) \<noteq> None)"
proof (intro conjI impI)
  let ?E = "sorted_files extrinsics_dir"
  let ?I = "sorted_files (rm_checkpoints images_dir)"
  let ?zs = "zip ?E ?I"
  let ?r = "create_mobile_brick_colmap_files np orig_dir"
  note unf = create_unfold [OF assms, of np]
  {
    assume ok: "fst ?r = None"
    from ok obtain f where f: "images_loop np extrinsics_dir 0 ?zs images_header = (None, f)"
      by (auto simp: unf Let_def split: prod.splits option.splits)
    from ok f obtain cf where cf: "cameras_loop np intrinsics_dir 0 ?zs cameras_header = (None, cf)"
      by (auto simp: unf Let_def split: prod.splits option.splits)
    from images_loop_None [OF f] obtain recs where
        lr: "length recs = length ?zs"
        and fr: "f = images_header @ concat (map (\<lambda>l. [l, []]) recs)"
        and er: "\<forall>j<length ?zs. image_line np extrinsics_dir (0 + j) (fst (?zs ! j)) (snd (?zs ! j))
                   = Inr (recs ! j)"
      by blast
    from cameras_loop_None [OF cf] obtain cams where
        lc: "length cams = length ?zs"
        and fc: "cf = cameras_header @ cams"
        and ec: "\<forall>j<length ?zs. camera_line np intrinsics_dir (0 + j) (fst (?zs ! j)) = Inr (cams ! j)"
      by blast
    have i1: "images_txt (snd ?r) = Some (images_header @ concat (map (\<lambda>l. [l, []]) recs))"
      using f cf fr by (simp add: unf Let_def)
    have c1: "cameras_txt (snd ?r) = Some (cameras_header @ cams)"
      using f cf fc by (simp add: unf Let_def)
    have r2: "\<forall>i. i < length recs \<longrightarrow>
                image_line np extrinsics_dir i (?E ! i) (?I ! i) = Inr (recs ! i)"
      using er lr by simp
    have c2: "\<forall>i. i < length cams \<longrightarrow>
                   (\<exists>m fx fy cx cy.
                       map_of intrinsics_dir (?E ! i) = Some (File (Some m))
                     \<and> at2 m 0 0 = Inr fx \<and> at2 m 1 1 = Inr fy
                     \<and> at2 m 0 2 = Inr cx \<and> at2 m 1 2 = Inr cy
                     \<and> cams ! i = str_nat (i + 1) @ '' PINHOLE 1920 1440 '' @ float_str np fx
                         @ '' '' @ float_str np fy @ '' '' @ float_str np cx @ '' ''
                         @ float_str np cy)"
    proof (intro allI impI)
      fix i assume i: "i < length cams"
      with ec lc have "camera_line np intrinsics_dir i (?E ! i) = Inr (cams ! i)" by simp
      from camera_line_Inr [OF this] show "\<exists>m fx fy cx cy.
                       map_of intrinsics_dir (?E ! i) = Some (File (Some m))
                     \<and> at2 m 0 0 = Inr fx \<and> at2 m 1 1 = Inr fy
                     \<and> at2 m 0 2 = Inr cx \<and> at2 m 1 2 = Inr cy
                     \<and> cams ! i = str_nat (i + 1) @ '' PINHOLE 1920 1440 '' @ float_str np fx
                         @ '' '' @ float_str np fy @ '' '' @ float_str np cx @ '' ''
                         @ float_str np cy" .
    qed
    from lr lc have "length recs = min (length ?E) (length ?I)"
      and "length cams = min (length ?E) (length ?I)" by simp_all
    with i1 c1 r2 c2
    show "\<exists>recs cams.
               length recs = min (length ?E) (length ?I)
             \<and> length cams = min (length ?E) (length ?I)
             \<and> images_txt (snd ?r) = Some (images_header @ concat (map (\<lambda>l. [l, []]) recs))
             \<and> cameras_txt (snd ?r) = Some (cameras_header @ cams)
             \<and> (\<forall>i. i < length recs \<longrightarrow>
                   image_line np extrinsics_dir i (?E ! i) (?I ! i) = Inr (recs ! i))
             \<and> (\<forall>i. i < length cams \<longrightarrow>
                   (\<exists>m fx fy cx cy.
                       map_of intrinsics_dir (?E ! i) = Some (File (Some m))
                     \<and> at2 m 0 0 = Inr fx \<and> at2 m 1 1 = Inr fy
                     \<and> at2 m 0 2 = Inr cx \<and> at2 m 1 2 = Inr cy
                     \<and> cams ! i = str_nat (i + 1) @ '' PINHOLE 1920 1440 '' @ float_str np fx
                         @ '' '' @ float_str np fy @ '' '' @ float_str np cx @ '' ''
                         @ float_str np cy))"
      by blast
  }
  {
    assume "\<exists>i. i < min (length ?E) (length ?I)
               \<and> (\<forall>c. map_of intrinsics_dir (?E ! i) \<noteq> Some (File c))"
    then obtain i where i: "i < length ?zs"
        and no: "\<forall>c. map_of intrinsics_dir (?E ! i) \<noteq> Some (File c)"
      by auto
    from i have "?zs ! i \<in> set ?zs" by (rule nth_mem)
    moreover from i no have "\<forall>c. map_of intrinsics_dir (fst (?zs ! i)) \<noteq> Some (File c)" by simp
    ultimately have ex: "\<exists>z\<in>set ?zs. \<forall>c. map_of intrinsics_dir (fst z) \<noteq> Some (File c)" by blast
    have cam: "fst (cameras_loop np intrinsics_dir 0 ?zs cameras_header) \<noteq> None"
      using ex by (rule cameras_loop_fails)
    show "fst ?r \<noteq> None"
      using cam by (auto simp: unf Let_def split: prod.splits option.splits)
  }
qed

text \<open>
  Claim C3 fails on the code. One pose file, one intrinsic file and one image, aligned
  in the sorted order of their directories but with a pose file and an intrinsic file of
  different names: the second loop looks for the intrinsic matrix under the name of the
  pose file, so the call raises FileNotFoundError. The cameras list is left with its
  header and no camera line, and the points list is not created.
\<close>

theorem synthesizer_intrinsic_lookup_by_pose_name:
  "sorted_files mismatch_pose_dir = [''pose0.txt'']
   \<and> sorted_files mismatch_intrinsic_dir = [''intrinsic0.txt'']
   \<and> sorted_files (rm_checkpoints mismatch_images_dir) = [''image0.png'']
   \<and> create_mobile_brick_colmap_files example_numeric mismatch_scan =
       (Some FileNotFoundError,
        \<lparr>images_txt = Some (images_header @ [''1 1.0 0.0 0.0 0.0 0.0 0.0 0.0 1 image0.png'', []]),
         cameras_txt = Some cameras_header, points3D_txt = None\<rparr>)"
  by code_simp

theorem synthesizer_record_counts_witness:
  "scan_pose example_scan = Some example_pose_dir
   \<and> scan_intrinsic example_scan = Some example_intrinsic_dir
   \<and> scan_images example_scan = Some example_images_dir
   \<and> fst (create_mobile_brick_colmap_files example_numeric example_scan) = None
   \<and> length (sorted_files example_pose_dir) = 3
   \<and> length (sorted_files example_intrinsic_dir) = 2
   \<and> length (sorted_files (rm_checkpoints example_images_dir)) = 2
   \<and> (\<exists>recs cams.
         length recs = min (length (sorted_files example_pose_dir))
                           (length (sorted_files (rm_checkpoints example_images_dir)))
       \<and> length cams = min (length (sorted_files example_pose_dir))
                           (length (sorted_files (rm_checkpoints example_images_dir)))
       \<and> images_txt (snd (create_mobile_brick_colmap_files example_numeric example_scan))
           = Some (images_header @ concat (map (\<lambda>l. [l, []]) recs))
       \<and> cameras_txt (snd (create_mobile_brick_colmap_files example_numeric example_scan))
           = Some (cameras_header @ cams))
   \<and> scan_pose mismatch_scan = Some mismatch_pose_dir
   \<and> scan_intrinsic mismatch_scan = Some mismatch_intrinsic_dir
   \<and> scan_images mismatch_scan = Some mismatch_images_dir
   \<and> (\<exists>i. i < min (length (sorted_files mismatch_pose_dir))
                   (length (sorted_files (rm_checkpoints mismatch_images_dir)))
          \<and> (\<forall>c. map_of mismatch_intrinsic_dir (sorted_files mismatch_pose_dir ! i) \<noteq> Some (File c)))
   \<and> fst (create_mobile_brick_colmap_files example_numeric mismatch_scan) \<noteq> None"
proof -
  have e1: "scan_pose example_scan = Some example_pose_dir"
    and e2: "scan_intrinsic example_scan = Some example_intrinsic_dir"
    and e3: "scan_images example_scan = Some example_images_dir"
    by (simp_all add: example_scan_def)
  have ok: "fst (create_mobile_brick_colmap_files example_numeric example_scan) = None"
    by code_simp
  have n: "length (sorted_files example_pose_dir) = 3"
      "length (sorted_files example_intrinsic_dir) = 2"
      "length (sorted_files (rm_checkpoints example_images_dir)) = 2"
    by code_simp+
  have m1: "scan_pose mismatch_scan = Some mismatch_pose_dir"
    and m2: "scan_intrinsic mismatch_scan = Some mismatch_intrinsic_dir"
    and m3: "scan_images mismatch_scan = Some mismatch_images_dir"
    by (simp_all add: mismatch_scan_def)
  have s1: "sorted_files mismatch_pose_dir = [''pose0.txt'']"
    and s2: "sorted_files (rm_checkpoints mismatch_images_dir) = [''image0.png'']"
    by code_simp+
  have s3: "map_of mismatch_intrinsic_dir ''pose0.txt'' = None"
    by (simp add: mismatch_intrinsic_dir_def)
  have no: "\<exists>i. i < min (length (sorted_files mismatch_pose_dir))
                   (length (sorted_files (rm_checkpoints mismatch_images_dir)))
          \<and> (\<forall>c. map_of mismatch_intrinsic_dir (sorted_files mismatch_pose_dir ! i) \<noteq> Some (File c))"
    by (rule exI [of _ 0]) (simp add: s1 s2 s3)
  from synthesizer_record_counts [OF e1 e2 e3, of example_numeric] ok
  have good: "\<exists>recs cams.
         length recs = min (length (sorted_files example_pose_dir))
                           (length (sorted_files (rm_checkpoints example_images_dir)))
       \<and> length cams = min (length (sorted_files example_pose_dir))
                           (length (sorted_files (rm_checkpoints example_images_dir)))
       \<and> images_txt (snd (create_mobile_brick_colmap_files example_numeric example_scan))
           = Some (images_header @ concat (map (\<lambda>l. [l, []]) recs))
       \<and> cameras_txt (snd (create_mobile_brick_colmap_files example_numeric example_scan))
           = Some (cameras_header @ cams)"
    by blast
  from synthesizer_record_counts [OF m1 m2 m3, of example_numeric] no
  have bad: "fst (create_mobile_brick_colmap_files example_numeric mismatch_scan) \<noteq> None"
    by blast
  from e1 e2 e3 ok n good m1 m2 m3 no bad show ?thesis by blast
qed

end
